theory Spec2Isabelle
  imports Complex_Main
begin

section \<open>SwimScore.cpp: the swim metrics of GoldenCheetah\<close>

text \<open>
  The metrics of \<^verbatim>\<open>SwimScore.cpp\<close> compute with C++ \<^verbatim>\<open>double\<close>. The embedding
  reads a finite double as the real number it stands for and does not model rounding;
  only the three constants of lines 86 to 88 are computed a second time with rounding,
  in a subsection of their own, for a statement about exactness.
  What the embedding does model is the point where a double stops being finite: a
  division by zero (Infinity or NaN) and \<^verbatim>\<open>pow\<close> of a negative base with the exponent
  \<^verbatim>\<open>1/3.0\<close> (NaN). Such an operation is a \<open>fault\<close>, and a computation that reaches
  one stops with it, where the C++ goes on with the non-finite value. A failed
  \<^verbatim>\<open>assert(deps.contains(...))\<close> is a fault as well, and so is a call through a
  null pointer.
\<close>

datatype fault = DivisionByZero | DomainError | DependencyMissing | NullDereference

subsection \<open>The drag model (lines 34 to 48)\<close>

text \<open>\<^verbatim>\<open>pow(speed, 3)\<close>: a cube, defined for every base.\<close>

definition pow3 :: "real \<Rightarrow> real" where
  "pow3 x = x ^ 3"

text \<open>\<^verbatim>\<open>pow(x, 1/3.0)\<close>: the cube root of a non-negative base, NaN for a negative one.\<close>

definition pow_third :: "real \<Rightarrow> fault + real" where
  "pow_third x = (if x < 0 then Inl DomainError else Inr (root 3 x))"

text \<open>A division whose divisor is not a non-zero constant: Infinity or NaN at zero.\<close>

definition fdiv :: "real \<Rightarrow> real \<Rightarrow> fault + real" where
  "fdiv a b = (if b = 0 then Inl DivisionByZero else Inr (a / b))"

definition swimming_power :: "real \<Rightarrow> real \<Rightarrow> real" where
  "swimming_power weight speed =
     (let K = 0.35 * weight + 2;
          ep = 0.6
      in (K / ep) * pow3 speed)"

definition swimming_speed :: "real \<Rightarrow> real \<Rightarrow> fault + real" where
  "swimming_speed weight pwr =
     (let K = 0.35 * weight + 2;
          ep = 0.6
      in case fdiv ep K of
           Inl f \<Rightarrow> Inl f
         | Inr q \<Rightarrow> pow_third (q * pwr))"

subsection \<open>Activities, configuration and metric values\<close>

record RideFilePoint =
  secs :: real
  kph :: real

text \<open>
  \<open>QDate\<close> is a day number. \<open>tags\<close> holds the string tags that \<^verbatim>\<open>getTag\<close> looks up,
  \<open>getWeight\<close> what \<^verbatim>\<open>RideFile::getWeight()\<close> returns.
\<close>

type_synonym QDate = int

record RideFile =
  isSwim :: bool
  isRun :: bool
  getWeight :: real
  recIntSecs :: real
  dataPoints :: "RideFilePoint list"
  tags :: "string \<rightharpoonup> string"
  startDate :: QDate

definition getTag :: "RideFile \<Rightarrow> string \<Rightarrow> string \<Rightarrow> string" where
  "getTag ride name dflt = (case tags ride name of None \<Rightarrow> dflt | Some v \<Rightarrow> v)"

text \<open>
  \<^verbatim>\<open>PaceZones\<close> is declared outside this file; its two methods are taken as they are
  called: \<^verbatim>\<open>whichRange\<close> gives the index of the range configured for a date (negative
  when there is none), \<^verbatim>\<open>getCV\<close> the threshold speed of a range.
  \<^verbatim>\<open>paceZones(true)\<close> returns a pointer, which line 203 tests: \<open>None\<close> is the null
  pointer.
\<close>

record PaceZones =
  whichRange :: "QDate \<Rightarrow> int"
  getCV :: "int \<Rightarrow> real"

record Athlete =
  paceZones :: "bool \<Rightarrow> PaceZones option"

record Context =
  athlete :: Athlete

text \<open>
  A metric as a dependency is read through \<^verbatim>\<open>value(true)\<close> and \<^verbatim>\<open>count()\<close>. What a
  \<^verbatim>\<open>compute\<close> does to its own metric is the setters it calls: \<^verbatim>\<open>setValue\<close> always,
  \<^verbatim>\<open>setCount\<close> in some metrics. A \<^verbatim>\<open>compute\<close> returns \<open>Inr None\<close> when it returns
  before any setter, \<open>Inr (Some c)\<close> when it has set \<open>c\<close>, and \<open>Inl f\<close> on a fault.
\<close>

record RideMetric =
  mvalue :: real
  mcount :: real

record computed =
  setValue :: real
  setCount :: "real option"

type_synonym deps = "string \<rightharpoonup> RideMetric"

subsection \<open>XPowerSwim (lines 70 to 115)\<close>

text \<open>
  The constants of lines 82 to 88. \<open>sampsPerWindow\<close>, \<open>attenuation\<close> and
  \<open>sampleWeight\<close> are computed once from \<open>secsDelta\<close> and never assigned again, so
  the loops below take \<open>secsDelta\<close> and read the three as functions of it.
\<close>

definition EPSILON :: real where
  "EPSILON = 0.1"

definition NEGLIGIBLE :: real where
  "NEGLIGIBLE = 0.1"

definition sampsPerWindow :: "real \<Rightarrow> real" where
  "sampsPerWindow secsDelta = 25 / secsDelta"

definition attenuation :: "real \<Rightarrow> real" where
  "attenuation secsDelta = sampsPerWindow secsDelta / (sampsPerWindow secsDelta + secsDelta)"

definition sampleWeight :: "real \<Rightarrow> real" where
  "sampleWeight secsDelta = secsDelta / (sampsPerWindow secsDelta + secsDelta)"

text \<open>The variables the two loops update. \<open>count\<close> is a C++ \<^verbatim>\<open>int\<close> that only counts up.\<close>

record loop_state =
  weighted :: real
  lastSecs :: real
  total :: real
  count :: nat

definition initial_state :: loop_state where
  "initial_state = \<lparr>weighted = 0, lastSecs = 0, total = 0, count = 0\<rparr>"

text \<open>The inner \<^verbatim>\<open>while\<close> (lines 97 to 103): its condition, its body, the loop.\<close>

definition decay_cond :: "real \<Rightarrow> RideFilePoint \<Rightarrow> loop_state \<Rightarrow> bool" where
  "decay_cond secsDelta point s \<longleftrightarrow>
     weighted s > NEGLIGIBLE \<and> secs point > lastSecs s + secsDelta + EPSILON"

definition decay_body :: "real \<Rightarrow> loop_state \<Rightarrow> loop_state" where
  "decay_body secsDelta s =
     (let w = weighted s * attenuation secsDelta
      in \<lparr>weighted = w,
          lastSecs = lastSecs s + secsDelta,
          total = total s + pow3 w,
          count = count s + 1\<rparr>)"

function decay_loop :: "real \<Rightarrow> RideFilePoint \<Rightarrow> loop_state \<Rightarrow> loop_state" where
  "decay_loop secsDelta point s =
     (if decay_cond secsDelta point s
      then decay_loop secsDelta point (decay_body secsDelta s)
      else s)"
  by pat_completeness auto
termination
proof (relation "measure (\<lambda>(secsDelta, point, s).
         nat \<lceil>weighted s / (NEGLIGIBLE * (1 - attenuation secsDelta))\<rceil>)")
  show "wf (measure (\<lambda>(secsDelta, point, s).
         nat \<lceil>weighted s / (NEGLIGIBLE * (1 - attenuation secsDelta))\<rceil>))"
    by simp
next
  fix secsDelta :: real and point :: RideFilePoint and s :: loop_state
  assume c: "decay_cond secsDelta point s"
  define a where "a = attenuation secsDelta"
  define w where "w = weighted s"
  have w: "1 / 10 < w"
    using c by (simp add: decay_cond_def NEGLIGIBLE_def w_def)
  have a: "a = (if secsDelta = 0 then 0 else 25 / (25 + secsDelta * secsDelta))"
  proof (cases "secsDelta = 0")
    case True
    then show ?thesis by (simp add: a_def attenuation_def sampsPerWindow_def)
  next
    case False
    have "25 / secsDelta + secsDelta = (25 + secsDelta * secsDelta) / secsDelta"
      using False by (simp add: field_simps)
    then show ?thesis
      using False by (simp add: a_def attenuation_def sampsPerWindow_def)
  qed
  have a0: "0 \<le> a" by (simp add: a add_nonneg_nonneg)
  have lt: "a < 1"
  proof (cases "secsDelta = 0")
    case True
    then show ?thesis by (simp add: a)
  next
    case False
    then have "0 < secsDelta * secsDelta"
      by (simp add: zero_less_mult_iff not_less less_le)
    then show ?thesis using False by (simp add: a)
  qed
  define k where "k = (1 / 10) * (1 - a)"
  have k: "0 < k" using lt by (simp add: k_def)
  have "w * a / k + 1 \<le> w / k"
  proof -
    have "w / k - w * a / k = w * (1 - a) / k"
      by (simp add: right_diff_distrib diff_divide_distrib)
    also have "\<dots> = w * 10"
      using lt by (simp add: k_def)
    finally show ?thesis using w by simp
  qed
  then have "\<lceil>w * a / k\<rceil> + 1 \<le> \<lceil>w / k\<rceil>"
    by (metis ceiling_add_one ceiling_mono)
  moreover have "0 \<le> w * a / k"
    using w a0 k by simp
  then have "0 \<le> \<lceil>w * a / k\<rceil>" by simp
  ultimately have "nat \<lceil>w * a / k\<rceil> < nat \<lceil>w / k\<rceil>"
    by linarith
  then show "((secsDelta, point, decay_body secsDelta s), (secsDelta, point, s))
        \<in> measure (\<lambda>(secsDelta, point, s).
         nat \<lceil>weighted s / (NEGLIGIBLE * (1 - attenuation secsDelta))\<rceil>)"
    by (simp add: decay_body_def Let_def NEGLIGIBLE_def k_def a_def w_def)
qed

declare decay_loop.simps [simp del]

text \<open>One round of the \<^verbatim>\<open>foreach\<close> (lines 96 to 109).\<close>

definition sample_step :: "real \<Rightarrow> real \<Rightarrow> loop_state \<Rightarrow> RideFilePoint \<Rightarrow> loop_state" where
  "sample_step weight secsDelta s point =
     (let s1 = decay_loop secsDelta point s;
          w = weighted s1 * attenuation secsDelta
              + sampleWeight secsDelta * swimming_power weight (kph point / 3.6)
      in \<lparr>weighted = w,
          lastSecs = secs point,
          total = total s1 + pow3 w,
          count = count s1 + 1\<rparr>)"

definition XPowerSwim_compute :: "RideFile \<Rightarrow> fault + computed option" where
  "XPowerSwim_compute ride =
     (if \<not> isSwim ride then Inr None
      else
        let weight = getWeight ride;
            secsDelta = recIntSecs ride
        in if secsDelta = 0 then Inl DivisionByZero
           else if sampsPerWindow secsDelta + secsDelta = 0 then Inl DivisionByZero
           else
             let s = foldl (sample_step weight secsDelta) initial_state (dataPoints ride)
             in case fdiv (total s) (real (count s)) of
                  Inl f \<Rightarrow> Inl f
                | Inr mean \<Rightarrow>
                    (case pow_third mean of
                       Inl f \<Rightarrow> Inl f
                     | Inr xpower \<Rightarrow>
                         Inr (Some \<lparr>setValue = xpower,
                                    setCount = Some (real (count s) * secsDelta)\<rparr>)))"

text \<open>
  The first two tests stand for the divisions of lines 86 to 88 (by \<open>secsDelta\<close>, and
  by \<open>sampsPerWindow + secsDelta\<close>); \<open>fdiv\<close> is \<^verbatim>\<open>total / count\<close> of line 110.
\<close>

subsection \<open>XPaceSwim (lines 140 to 161)\<close>

definition XPaceSwim_compute :: "RideFile \<Rightarrow> deps \<Rightarrow> fault + computed option" where
  "XPaceSwim_compute ride deps =
     (if \<not> isSwim ride then Inr None
      else
        let weight = getWeight ride
        in case deps ''swimscore_xpower'' of
             None \<Rightarrow> Inl DependencyMissing
           | Some xPowerSwim \<Rightarrow>
               (case swimming_speed weight (mvalue xPowerSwim) of
                  Inl f \<Rightarrow> Inl f
                | Inr speed \<Rightarrow>
                    (case (if speed \<noteq> 0 then fdiv (100 / 60) speed else Inr 0) of
                       Inl f \<Rightarrow> Inl f
                     | Inr xPaceSwim \<Rightarrow>
                         Inr (Some \<lparr>setValue = xPaceSwim, setCount = None\<rparr>))))"

subsection \<open>STP (lines 184 to 210)\<close>

text \<open>
  \<^verbatim>\<open>QString::toInt\<close> belongs to Qt; the model takes it as the parameter \<open>toInt\<close>.
  Line 196 calls \<^verbatim>\<open>whichRange\<close> through \<^verbatim>\<open>paceZones(true)\<close> before line 203 tests
  \<open>zones\<close>, the same pointer, so a null pointer faults there and the test comes too
  late for it.
\<close>

definition STP_compute ::
  "(string \<Rightarrow> int) \<Rightarrow> RideFile \<Rightarrow> Context \<Rightarrow> fault + computed option" where
  "STP_compute toInt ride context =
     (if \<not> isSwim ride then Inr None
      else
        let weight = getWeight ride;
            zones = paceZones (athlete context) True
        in case paceZones (athlete context) True of
             None \<Rightarrow> Inl NullDereference
           | Some z \<Rightarrow>
               let zoneRange = whichRange z (startDate ride);
                   cv = real_of_int (toInt (getTag ride ''CV'' ''0''));
                   cv = (if cv = 0 \<and> zones \<noteq> None \<and> zoneRange \<ge> 0
                         then (case zones of
                                 None \<Rightarrow> cv
                               | Some z' \<Rightarrow> getCV z' zoneRange)
                         else cv);
                   watts = swimming_power weight (cv / 3.6)
               in Inr (Some \<lparr>setValue = watts, setCount = None\<rparr>))"

subsection \<open>SRI (lines 235 to 253)\<close>

definition SRI_compute :: "RideFile \<Rightarrow> deps \<Rightarrow> fault + computed option" where
  "SRI_compute ride deps =
     (if \<not> isSwim ride then Inr None
      else
        case deps ''swimscore_xpower'' of
          None \<Rightarrow> Inl DependencyMissing
        | Some xPowerSwim \<Rightarrow>
            (case deps ''swimscore_tp'' of
               None \<Rightarrow> Inl DependencyMissing
             | Some stp \<Rightarrow>
                 (case (if mvalue stp \<noteq> 0 then fdiv (mvalue xPowerSwim) (mvalue stp)
                        else Inr 0) of
                    Inl f \<Rightarrow> Inl f
                  | Inr reli \<Rightarrow>
                      Inr (Some \<lparr>setValue = reli,
                                 setCount = Some (mcount xPowerSwim)\<rparr>))))"

subsection \<open>SwimScore (lines 274 to 296)\<close>

definition SwimScore_compute :: "RideFile \<Rightarrow> deps \<Rightarrow> fault + computed option" where
  "SwimScore_compute ride deps =
     (if \<not> isSwim ride then Inr None
      else
        case deps ''swimscore_xpower'' of
          None \<Rightarrow> Inl DependencyMissing
        | Some xPowerSwim \<Rightarrow>
            (case deps ''swimscore_ri'' of
               None \<Rightarrow> Inl DependencyMissing
             | Some sri \<Rightarrow>
                 (case deps ''swimscore_tp'' of
                    None \<Rightarrow> Inl DependencyMissing
                  | Some stp \<Rightarrow>
                      let normWork = mvalue xPowerSwim * mcount xPowerSwim;
                          rawGOVSS = normWork * mvalue sri;
                          workInAnHourAtSTP = mvalue stp * 3600
                      in case (if workInAnHourAtSTP \<noteq> 0
                               then (case fdiv rawGOVSS workInAnHourAtSTP of
                                       Inl f \<Rightarrow> Inl f
                                     | Inr q \<Rightarrow> Inr (q * 100))
                               else Inr 0) of
                           Inl f \<Rightarrow> Inl f
                         | Inr score \<Rightarrow>
                             Inr (Some \<lparr>setValue = score, setCount = None\<rparr>))))"

text \<open>\<^verbatim>\<open>isRelevantForRide\<close>, the same in the five swim metrics, reads a \<^verbatim>\<open>RideItem\<close>.\<close>

record RideItem =
  item_isSwim :: bool

definition isRelevantForRide :: "RideItem \<Rightarrow> bool" where
  "isRelevantForRide ride = item_isSwim ride"

subsection \<open>TriScore (lines 332 to 349)\<close>

definition TriScore_compute :: "RideFile \<Rightarrow> deps \<Rightarrow> fault + computed option" where
  "TriScore_compute ride deps =
     (if isSwim ride then
        (case deps ''swimscore'' of
           None \<Rightarrow> Inl DependencyMissing
         | Some m \<Rightarrow> Inr (Some \<lparr>setValue = mvalue m, setCount = None\<rparr>))
      else if isRun ride then
        (case deps ''govss'' of
           None \<Rightarrow> Inl DependencyMissing
         | Some m \<Rightarrow> Inr (Some \<lparr>setValue = mvalue m, setCount = None\<rparr>))
      else
        (case deps ''skiba_bike_score'' of
           None \<Rightarrow> Inl DependencyMissing
         | Some m \<Rightarrow> Inr (Some \<lparr>setValue = mvalue m, setCount = None\<rparr>)))"


subsection \<open>The registered metrics and the evaluator\<close>

text \<open>
  Modelled from the spec: the MetricDefinition and the result set of section 3. The code
  that keeps the registered metrics, runs them for an activity and builds the result set
  is not in \<^verbatim>\<open>SwimScore.cpp\<close>, which only registers its metrics with it (lines 301 to
  312). A definition has a symbol, the symbols it depends on, an applicability test and a
  compute; a result set maps a symbol to a value with an optional count.
\<close>

record MetricDefinition =
  symbol :: string
  dependencies :: "string list"
  applicable :: "RideFile \<Rightarrow> bool"
  compute :: "RideFile \<Rightarrow> Context \<Rightarrow> deps \<Rightarrow> fault + computed option"

type_synonym result_set = "string \<rightharpoonup> computed"

text \<open>
  Modelled from the spec: a value of the result set as the compute of a later metric
  reads it. \<open>count0\<close> is what \<^verbatim>\<open>count()\<close> gives for a value that has no count; neither
  the spec nor this file says what it is, and no metric of this file reads the count of
  a metric that sets none.
\<close>

definition as_dependency :: "real \<Rightarrow> computed \<Rightarrow> RideMetric" where
  "as_dependency count0 c =
     \<lparr>mvalue = setValue c,
      mcount = (case setCount c of None \<Rightarrow> count0 | Some n \<Rightarrow> n)\<rparr>"

text \<open>
  Modelled from the spec: the Evaluator of section 4.2. It goes through the plan in
  order. A definition that is not applicable to the activity produces no value, which is
  not a fault. A compute gets the values found so far as its dependencies; its fault ends
  the evaluation at once; a compute that sets nothing adds nothing.
\<close>

fun evaluate ::
  "real \<Rightarrow> MetricDefinition list \<Rightarrow> RideFile \<Rightarrow> Context \<Rightarrow> result_set
     \<Rightarrow> fault + result_set" where
  "evaluate count0 [] ride context rs = Inr rs"
| "evaluate count0 (m # ms) ride context rs =
     (if \<not> applicable m ride then evaluate count0 ms ride context rs
      else
        (case compute m ride context (map_option (as_dependency count0) \<circ> rs) of
           Inl f \<Rightarrow> Inl f
         | Inr None \<Rightarrow> evaluate count0 ms ride context rs
         | Inr (Some c) \<Rightarrow> evaluate count0 ms ride context (rs(symbol m \<mapsto> c))))"

text \<open>
  The five swim metrics as \<^verbatim>\<open>addAllSwimScore\<close> registers them (lines 301 to 312), in
  that order: the symbol each constructor sets, the dependencies it is registered with,
  \<^verbatim>\<open>isRelevantForRide\<close> (the same in the five) as the applicability test, and the
  compute.
\<close>

definition swim_applicable :: "RideFile \<Rightarrow> bool" where
  "swim_applicable ride = isRelevantForRide \<lparr>item_isSwim = isSwim ride\<rparr>"

definition swim_metrics :: "(string \<Rightarrow> int) \<Rightarrow> MetricDefinition list" where
  "swim_metrics toInt =
     [\<lparr>symbol = ''swimscore_xpower'', dependencies = [],
       applicable = swim_applicable,
       compute = (\<lambda>ride context deps. XPowerSwim_compute ride)\<rparr>,
      \<lparr>symbol = ''swimscore_tp'', dependencies = [],
       applicable = swim_applicable,
       compute = (\<lambda>ride context deps. STP_compute toInt ride context)\<rparr>,
      \<lparr>symbol = ''swimscore_xpace'', dependencies = [''swimscore_xpower''],
       applicable = swim_applicable,
       compute = (\<lambda>ride context deps. XPaceSwim_compute ride deps)\<rparr>,
      \<lparr>symbol = ''swimscore_ri'',
       dependencies = [''swimscore_xpower'', ''swimscore_tp''],
       applicable = swim_applicable,
       compute = (\<lambda>ride context deps. SRI_compute ride deps)\<rparr>,
      \<lparr>symbol = ''swimscore'',
       dependencies = [''swimscore_xpower'', ''swimscore_tp'', ''swimscore_ri''],
       applicable = swim_applicable,
       compute = (\<lambda>ride context deps. SwimScore_compute ride deps)\<rparr>]"

text \<open>The same plan with the applicability test taken away: every compute is called.\<close>

definition always_called :: "MetricDefinition list \<Rightarrow> MetricDefinition list" where
  "always_called plan = map (\<lambda>m. m\<lparr>applicable := \<lambda>ride. True\<rparr>) plan"

subsection \<open>Lines 86 to 88 in double arithmetic\<close>

text \<open>
  Reading doubles as reals keeps everything but the rounding. Where a statement is about
  exactness, the three constants are computed here once more, as the doubles the code
  holds: every operation gives the double nearest to the exact result, the one with the
  even last bit when two are equally near, with 53 significant bits. The exponent is not
  bounded, so overflow and subnormal numbers are not covered; the values below are far
  from both. \<open>secsDelta\<close> is a double already.
\<close>

definition round_half_even :: "real \<Rightarrow> int" where
  "round_half_even y =
     (let f = \<lfloor>y\<rfloor>
      in if y - of_int f < 1 / 2 then f
         else if 1 / 2 < y - of_int f then f + 1
         else if even f then f else f + 1)"

definition fl :: "real \<Rightarrow> real" where
  "fl x =
     (if x = 0 then 0
      else
        let e = \<lfloor>log 2 \<bar>x\<bar>\<rfloor> - 52
        in of_int (round_half_even (x / 2 powi e)) * 2 powi e)"

definition sampsPerWindow_fl :: "real \<Rightarrow> real" where
  "sampsPerWindow_fl secsDelta = fl (25 / secsDelta)"

definition attenuation_fl :: "real \<Rightarrow> real" where
  "attenuation_fl secsDelta =
     fl (sampsPerWindow_fl secsDelta / fl (sampsPerWindow_fl secsDelta + secsDelta))"

definition sampleWeight_fl :: "real \<Rightarrow> real" where
  "sampleWeight_fl secsDelta = fl (secsDelta / fl (sampsPerWindow_fl secsDelta + secsDelta))"

subsection \<open>Example activities\<close>

text \<open>A swim with no samples (a manual entry) and the recording interval \<open>d\<close>.\<close>

definition empty_swim :: "real \<Rightarrow> RideFile" where
  "empty_swim d =
     \<lparr>isSwim = True, isRun = False, getWeight = 70, recIntSecs = d,
      dataPoints = [], tags = Map.empty, startDate = 0\<rparr>"

text \<open>A ride on a bike.\<close>

definition bike_ride :: RideFile where
  "bike_ride =
     \<lparr>isSwim = False, isRun = False, getWeight = 70, recIntSecs = 1,
      dataPoints = [\<lparr>secs = 1, kph = 30\<rparr>], tags = Map.empty, startDate = 0\<rparr>"

text \<open>An athlete with no pace zones configured for any date.\<close>

definition no_zones :: Context where
  "no_zones =
     \<lparr>athlete = \<lparr>paceZones = \<lambda>b. Some \<lparr>whichRange = \<lambda>d. - 1, getCV = \<lambda>i. 0\<rparr>\<rparr>\<rparr>"

text \<open>An athlete whose only range, number 0, has the threshold speed 4 km/h.\<close>

definition one_zone :: Context where
  "one_zone =
     \<lparr>athlete = \<lparr>paceZones = \<lambda>b. Some \<lparr>whichRange = \<lambda>d. 0, getCV = \<lambda>i. 4\<rparr>\<rparr>\<rparr>"



text \<open>
  One hour in the water without moving: a single sample of speed 0 and a recording
  interval of 3600 seconds, no \<open>CV\<close> tag.
\<close>

definition still_hour :: RideFile where
  "still_hour =
     \<lparr>isSwim = True, isRun = False, getWeight = 70, recIntSecs = 3600,
      dataPoints = [\<lparr>secs = 0, kph = 0\<rparr>], tags = Map.empty, startDate = 0\<rparr>"

text \<open>The metrics computed for \<open>still_hour\<close> with \<open>no_zones\<close>, as dependencies.\<close>

definition still_hour_deps :: deps where
  "still_hour_deps =
     [''swimscore_xpower'' \<mapsto> \<lparr>mvalue = 0, mcount = 3600\<rparr>,
      ''swimscore_tp'' \<mapsto> \<lparr>mvalue = 0, mcount = 1\<rparr>,
      ''swimscore_ri'' \<mapsto> \<lparr>mvalue = 0, mcount = 3600\<rparr>]"

text \<open>
  A swim of two samples 3 seconds apart at a recording interval of 1 second; the
  swimmer rests at both.
\<close>

definition paused_swim :: RideFile where
  "paused_swim =
     \<lparr>isSwim = True, isRun = False, getWeight = 70, recIntSecs = 1,
      dataPoints = [\<lparr>secs = 1, kph = 0\<rparr>, \<lparr>secs = 4, kph = 0\<rparr>],
      tags = Map.empty, startDate = 0\<rparr>"

text \<open>
  A swim at the constant speed \<open>v\<close> (km/h): \<open>n\<close> samples, one every \<open>d\<close> seconds, the
  first at \<open>d\<close>.
\<close>

definition steady_points :: "real \<Rightarrow> real \<Rightarrow> nat \<Rightarrow> RideFilePoint list" where
  "steady_points d v n = map (\<lambda>i. \<lparr>secs = real i * d, kph = v\<rparr>) [1..<Suc n]"

definition steady_swim :: "real \<Rightarrow> real \<Rightarrow> real \<Rightarrow> nat \<Rightarrow> RideFile" where
  "steady_swim weight d v n =
     \<lparr>isSwim = True, isRun = False, getWeight = weight, recIntSecs = d,
      dataPoints = steady_points d v n, tags = Map.empty, startDate = 0\<rparr>"

text \<open>
  What \<^verbatim>\<open>QString::toInt\<close> gives for a text of decimal digits, its number, and for a
  text with any other character in it, such as the point of \<open>4.32\<close> or a letter: 0, the
  conversion having failed. A sign and blanks around the number, which
  \<^verbatim>\<open>QString::toInt\<close> accepts, are not read here.
\<close>

fun digits_value :: "nat \<Rightarrow> string \<Rightarrow> nat option" where
  "digits_value acc [] = Some acc"
| "digits_value acc (c # cs) =
     (let n = (of_char c :: nat)
      in if 48 \<le> n \<and> n \<le> 57
         then digits_value (10 * acc + (n - 48)) cs
         else None)"

definition decimal_toInt :: "string \<Rightarrow> int" where
  "decimal_toInt t = (case digits_value 0 t of None \<Rightarrow> 0 | Some n \<Rightarrow> int n)"

section \<open>Properties\<close>

subsection \<open>The loop constants\<close>

lemma attenuation_zero: "attenuation 0 = 0"
  by (simp add: attenuation_def sampsPerWindow_def)

lemma attenuation_eq: "d \<noteq> 0 \<Longrightarrow> attenuation d = 25 / (25 + d * d)"
proof -
  assume d: "d \<noteq> 0"
  have "25 / d + d = (25 + d * d) / d"
    using d by (simp add: field_simps)
  then show ?thesis
    using d by (simp add: attenuation_def sampsPerWindow_def)
qed

lemma attenuation_pos: "d \<noteq> 0 \<Longrightarrow> 0 < attenuation d"
  by (simp add: attenuation_eq add_pos_nonneg)

lemma attenuation_nonneg: "0 \<le> attenuation d"
  by (cases "d = 0") (simp_all add: attenuation_zero attenuation_eq add_nonneg_nonneg)

lemma attenuation_less_one: "attenuation d < 1"
proof (cases "d = 0")
  case True
  then show ?thesis by (simp add: attenuation_zero)
next
  case False
  then have "0 < d * d" by (simp add: zero_less_mult_iff not_less less_le)
  then show ?thesis using False by (simp add: attenuation_eq)
qed

subsection \<open>The inner loop, unfolded\<close>

lemma decay_loop_stop: "\<not> decay_cond d p s \<Longrightarrow> decay_loop d p s = s"
  by (subst decay_loop.simps) simp

lemma decay_loop_step:
  "decay_cond d p s \<Longrightarrow> decay_loop d p s = decay_loop d p (decay_body d s)"
  by (subst decay_loop.simps) simp

lemma swimming_power_zero: "swimming_power w 0 = 0"
  by (simp add: swimming_power_def pow3_def)

subsection \<open>Degenerate input to XPowerSwim\<close>

text \<open>
  C1. The claim: for an activity with zero samples, or with a recording interval that is
  zero, \<open>XPowerSwim::compute\<close> yields the value 0 and the duration 0 and divides by zero
  nowhere. The code has no such guard. With zero samples the loop leaves \<open>count\<close> at 0
  and line 110 divides \<open>total\<close> by it; with the interval 0 line 86 divides 25 by it,
  with or without samples.
\<close>

theorem XPowerSwim_degenerate_input_divides_by_zero:
  "XPowerSwim_compute (empty_swim 1) = Inl DivisionByZero
   \<and> XPowerSwim_compute (empty_swim 0) = Inl DivisionByZero
   \<and> XPowerSwim_compute ((empty_swim 0)\<lparr>dataPoints := [\<lparr>secs = 0, kph = 3\<rparr>]\<rparr>)
       = Inl DivisionByZero"
  by (simp add: XPowerSwim_compute_def empty_swim_def sampsPerWindow_def
      initial_state_def fdiv_def)

subsection \<open>A threshold power of zero\<close>

text \<open>
  C3. For a swim whose threshold power (the dependency \<open>swimscore_tp\<close>) is 0 and whose
  estimator value (the dependency \<open>swimscore_xpower\<close>) is positive, \<open>SRI\<close> and
  \<open>SwimScore\<close> both set the value 0, and neither computation faults: the guarded
  divisions by the threshold are not performed.
\<close>

theorem zero_threshold_gives_zero_SRI_and_SwimScore:
  assumes "isSwim ride"
    and "deps ''swimscore_xpower'' = Some xp" and "0 < mvalue xp"
    and "deps ''swimscore_tp'' = Some stp" and "mvalue stp = 0"
    and "deps ''swimscore_ri'' = Some sri"
  shows "SRI_compute ride deps = Inr (Some \<lparr>setValue = 0, setCount = Some (mcount xp)\<rparr>)
       \<and> SwimScore_compute ride deps = Inr (Some \<lparr>setValue = 0, setCount = None\<rparr>)"
  using assms by (simp add: SRI_compute_def SwimScore_compute_def)

theorem zero_threshold_witness:
  "isSwim (empty_swim 1)
   \<and> SRI_compute (empty_swim 1)
        [''swimscore_xpower'' \<mapsto> \<lparr>mvalue = 50, mcount = 1800\<rparr>,
         ''swimscore_tp'' \<mapsto> \<lparr>mvalue = 0, mcount = 1\<rparr>,
         ''swimscore_ri'' \<mapsto> \<lparr>mvalue = 0, mcount = 1800\<rparr>]
       = Inr (Some \<lparr>setValue = 0, setCount = Some 1800\<rparr>)
   \<and> SwimScore_compute (empty_swim 1)
        [''swimscore_xpower'' \<mapsto> \<lparr>mvalue = 50, mcount = 1800\<rparr>,
         ''swimscore_tp'' \<mapsto> \<lparr>mvalue = 0, mcount = 1\<rparr>,
         ''swimscore_ri'' \<mapsto> \<lparr>mvalue = 0, mcount = 1800\<rparr>]
       = Inr (Some \<lparr>setValue = 0, setCount = None\<rparr>)"
proof -
  have swim: "isSwim (empty_swim 1)" by (simp add: empty_swim_def)
  show ?thesis
    using swim
      zero_threshold_gives_zero_SRI_and_SwimScore [OF swim,
        of "[''swimscore_xpower'' \<mapsto> \<lparr>mvalue = 50, mcount = 1800\<rparr>,
             ''swimscore_tp'' \<mapsto> \<lparr>mvalue = 0, mcount = 1\<rparr>,
             ''swimscore_ri'' \<mapsto> \<lparr>mvalue = 0, mcount = 1800\<rparr>]"
           "\<lparr>mvalue = 50, mcount = 1800\<rparr>" "\<lparr>mvalue = 0, mcount = 1\<rparr>"
           "\<lparr>mvalue = 0, mcount = 1800\<rparr>"]
    by simp
qed

subsection \<open>One hour at threshold power\<close>

text \<open>
  C5, as the claim states it, fails where the threshold power is 0: \<open>still_hour\<close> has the
  estimator value 0 and the duration 3600, with \<open>no_zones\<close> its threshold power is 0 as
  well, so the two are equal, and the guard of line 293 makes its \<open>SwimScore\<close> 0.
\<close>

theorem one_hour_at_zero_threshold_scores_zero:
  "XPowerSwim_compute still_hour = Inr (Some \<lparr>setValue = 0, setCount = Some 3600\<rparr>)
   \<and> STP_compute decimal_toInt still_hour no_zones
       = Inr (Some \<lparr>setValue = 0, setCount = None\<rparr>)
   \<and> SRI_compute still_hour still_hour_deps
       = Inr (Some \<lparr>setValue = 0, setCount = Some 3600\<rparr>)
   \<and> SwimScore_compute still_hour still_hour_deps
       = Inr (Some \<lparr>setValue = 0, setCount = None\<rparr>)
   \<and> SwimScore_compute still_hour still_hour_deps
       \<noteq> Inr (Some \<lparr>setValue = 100, setCount = None\<rparr>)"
proof -
  have "\<not> decay_cond 3600 \<lparr>secs = 0, kph = 0\<rparr> initial_state"
    by (simp add: decay_cond_def initial_state_def NEGLIGIBLE_def)
  then have "decay_loop 3600 \<lparr>secs = 0, kph = 0\<rparr> initial_state = initial_state"
    by (rule decay_loop_stop)
  then have "sample_step 70 3600 initial_state \<lparr>secs = 0, kph = 0\<rparr>
             = \<lparr>weighted = 0, lastSecs = 0, total = 0, count = 1\<rparr>"
    by (simp add: sample_step_def initial_state_def swimming_power_zero pow3_def)
  then have "XPowerSwim_compute still_hour
             = Inr (Some \<lparr>setValue = 0, setCount = Some 3600\<rparr>)"
    by (simp add: XPowerSwim_compute_def still_hour_def sampsPerWindow_def fdiv_def
        pow_third_def)
  moreover have "STP_compute decimal_toInt still_hour no_zones
                 = Inr (Some \<lparr>setValue = 0, setCount = None\<rparr>)"
    by (simp add: STP_compute_def still_hour_def no_zones_def getTag_def decimal_toInt_def
        swimming_power_zero)
  moreover have "SRI_compute still_hour still_hour_deps
                 = Inr (Some \<lparr>setValue = 0, setCount = Some 3600\<rparr>)"
    by (simp add: SRI_compute_def still_hour_def still_hour_deps_def)
  moreover have "SwimScore_compute still_hour still_hour_deps
                 = Inr (Some \<lparr>setValue = 0, setCount = None\<rparr>)"
    by (simp add: SwimScore_compute_def still_hour_def still_hour_deps_def)
  ultimately show ?thesis by simp
qed

text \<open>
  C5, amended: for a swim whose estimator value equals its threshold power, with the
  threshold power not zero, whose estimator duration is 3600 seconds and whose
  \<open>swimscore_ri\<close> dependency holds the value \<open>SRI\<close> computes from the same dependencies,
  \<open>SwimScore\<close> is exactly 100.
\<close>

theorem one_hour_at_threshold_scores_100:
  assumes "isSwim ride"
    and "deps ''swimscore_xpower'' = Some xp"
    and "deps ''swimscore_tp'' = Some stp"
    and "deps ''swimscore_ri'' = Some sri"
    and "SRI_compute ride deps = Inr (Some c)" and "mvalue sri = setValue c"
    and "mvalue xp = mvalue stp" and "mcount xp = 3600"
    and "mvalue stp \<noteq> 0"
  shows "SwimScore_compute ride deps = Inr (Some \<lparr>setValue = 100, setCount = None\<rparr>)"
proof -
  have "setValue c = 1"
    using assms by (auto simp: SRI_compute_def fdiv_def)
  then show ?thesis
    using assms by (simp add: SwimScore_compute_def fdiv_def)
qed

theorem one_hour_at_threshold_witness:
  "SwimScore_compute (empty_swim 1)
     [''swimscore_xpower'' \<mapsto> \<lparr>mvalue = 80, mcount = 3600\<rparr>,
      ''swimscore_tp'' \<mapsto> \<lparr>mvalue = 80, mcount = 1\<rparr>,
      ''swimscore_ri'' \<mapsto> \<lparr>mvalue = 1, mcount = 3600\<rparr>]
   = Inr (Some \<lparr>setValue = 100, setCount = None\<rparr>)"
proof -
  let ?deps = "[''swimscore_xpower'' \<mapsto> \<lparr>mvalue = 80, mcount = 3600\<rparr>,
      ''swimscore_tp'' \<mapsto> \<lparr>mvalue = 80, mcount = 1\<rparr>,
      ''swimscore_ri'' \<mapsto> \<lparr>mvalue = 1, mcount = 3600\<rparr>]"
  have swim: "isSwim (empty_swim 1)" by (simp add: empty_swim_def)
  have sri: "SRI_compute (empty_swim 1) ?deps
             = Inr (Some \<lparr>setValue = 1, setCount = Some 3600\<rparr>)"
    by (simp add: SRI_compute_def empty_swim_def fdiv_def)
  show ?thesis
    by (rule one_hour_at_threshold_scores_100 [OF swim _ _ _ sri,
          of "\<lparr>mvalue = 80, mcount = 3600\<rparr>" "\<lparr>mvalue = 80, mcount = 1\<rparr>"
             "\<lparr>mvalue = 1, mcount = 3600\<rparr>"]) simp_all
qed

subsection \<open>The threshold power\<close>




subsection \<open>Activities that are not swims\<close>

lemma still_hour_XPowerSwim:
  "XPowerSwim_compute still_hour = Inr (Some \<lparr>setValue = 0, setCount = Some 3600\<rparr>)"
proof -
  have "\<not> decay_cond 3600 \<lparr>secs = 0, kph = 0\<rparr> initial_state"
    by (simp add: decay_cond_def initial_state_def NEGLIGIBLE_def)
  then have "decay_loop 3600 \<lparr>secs = 0, kph = 0\<rparr> initial_state = initial_state"
    by (rule decay_loop_stop)
  then have "sample_step 70 3600 initial_state \<lparr>secs = 0, kph = 0\<rparr>
             = \<lparr>weighted = 0, lastSecs = 0, total = 0, count = 1\<rparr>"
    by (simp add: sample_step_def initial_state_def swimming_power_zero pow3_def)
  then show ?thesis
    by (simp add: XPowerSwim_compute_def still_hour_def sampsPerWindow_def fdiv_def
        pow_third_def)
qed

text \<open>
  For a swim the evaluator publishes all five metrics. \<open>still_hour\<close> is a swim at rest
  with no threshold configured, so each of the five is there with the value 0: a value
  of zero and no value are different results.
\<close>

lemma swim_metrics_present_for_a_swim:
  "evaluate count0 (swim_metrics decimal_toInt) still_hour no_zones Map.empty
   = Inr [''swimscore_xpower'' \<mapsto> \<lparr>setValue = 0, setCount = Some 3600\<rparr>,
          ''swimscore_tp'' \<mapsto> \<lparr>setValue = 0, setCount = None\<rparr>,
          ''swimscore_xpace'' \<mapsto> \<lparr>setValue = 0, setCount = None\<rparr>,
          ''swimscore_ri'' \<mapsto> \<lparr>setValue = 0, setCount = Some 3600\<rparr>,
          ''swimscore'' \<mapsto> \<lparr>setValue = 0, setCount = None\<rparr>]"
proof -
  have swim: "isSwim still_hour" "getWeight still_hour = 70"
    by (simp_all add: still_hour_def)
  have tp: "STP_compute decimal_toInt still_hour no_zones
            = Inr (Some \<lparr>setValue = 0, setCount = None\<rparr>)"
    by (simp add: STP_compute_def still_hour_def no_zones_def getTag_def decimal_toInt_def
        swimming_power_zero)
  have speed: "swimming_speed 70 0 = Inr 0"
    by (simp add: swimming_speed_def fdiv_def pow_third_def)
  show ?thesis
    by (simp add: swim_metrics_def swim_applicable_def isRelevantForRide_def swim
        still_hour_XPowerSwim tp XPaceSwim_compute_def SRI_compute_def
        SwimScore_compute_def as_dependency_def speed)
qed

text \<open>
  \<open>TriScore\<close> is registered with \<open>swimscore\<close> among its dependencies (lines 353 to 358)
  and computes for runs and rides too, but for an activity that is not a swim it never
  looks \<open>swimscore\<close> up: with or without it in the dependencies the result is the same.
\<close>

lemma TriScore_does_not_read_swimscore_unless_swim:
  "\<not> isSwim ride \<Longrightarrow>
   TriScore_compute ride (deps(''swimscore'' := None)) = TriScore_compute ride deps"
  by (simp add: TriScore_compute_def)

text \<open>
  C7. For an activity that is not a swim, each of the five swim metrics returns before
  any setter: its \<open>compute\<close> gives \<open>Inr None\<close>, which is not a fault, and
  \<open>isRelevantForRide\<close> is false. In the evaluator of the spec the five stay out of the
  result set: evaluating the registered swim metrics leaves any result set as it was, so
  from the empty result set none of the five symbols has a value, not the value 0 either.
  That is so even when the applicability test is taken away and every compute is called.
\<close>

theorem swim_metrics_produce_nothing_for_other_disciplines:
  assumes "\<not> isSwim ride"
  shows "XPowerSwim_compute ride = Inr None
       \<and> XPaceSwim_compute ride deps = Inr None
       \<and> STP_compute toInt ride context = Inr None
       \<and> SRI_compute ride deps = Inr None
       \<and> SwimScore_compute ride deps = Inr None
       \<and> isRelevantForRide \<lparr>item_isSwim = isSwim ride\<rparr> = False
       \<and> evaluate count0 (swim_metrics toInt) ride context rs = Inr rs
       \<and> evaluate count0 (always_called (swim_metrics toInt)) ride context rs = Inr rs
       \<and> (\<exists>out. evaluate count0 (swim_metrics toInt) ride context Map.empty = Inr out
              \<and> out ''swimscore_xpower'' = None
              \<and> out ''swimscore_xpace'' = None
              \<and> out ''swimscore_tp'' = None
              \<and> out ''swimscore_ri'' = None
              \<and> out ''swimscore'' = None)"
proof -
  have computes: "XPowerSwim_compute ride = Inr None"
    "XPaceSwim_compute ride d = Inr None"
    "STP_compute toInt ride context = Inr None"
    "SRI_compute ride d = Inr None"
    "SwimScore_compute ride d = Inr None" for d
    using assms
    by (simp_all add: XPowerSwim_compute_def XPaceSwim_compute_def STP_compute_def
        SRI_compute_def SwimScore_compute_def)
  have relevant: "isRelevantForRide \<lparr>item_isSwim = isSwim ride\<rparr> = False"
    using assms by (simp add: isRelevantForRide_def)
  have plan: "evaluate count0 (swim_metrics toInt) ride context r = Inr r" for r
    by (simp add: swim_metrics_def swim_applicable_def relevant)
  have called: "evaluate count0 (always_called (swim_metrics toInt)) ride context r = Inr r"
    for r
    by (simp add: always_called_def swim_metrics_def computes)
  show ?thesis
    by (simp add: computes relevant plan called)
qed

theorem swim_metrics_produce_nothing_witness:
  "\<not> isSwim bike_ride
   \<and> XPowerSwim_compute bike_ride = Inr None
   \<and> SwimScore_compute bike_ride still_hour_deps = Inr None
   \<and> evaluate 1 (swim_metrics decimal_toInt) bike_ride one_zone Map.empty
       = Inr Map.empty
   \<and> evaluate 1 (always_called (swim_metrics decimal_toInt)) bike_ride one_zone Map.empty
       = Inr Map.empty"
proof -
  have h: "\<not> isSwim bike_ride" by (simp add: bike_ride_def)
  show ?thesis
    using h swim_metrics_produce_nothing_for_other_disciplines
      [OF h, of still_hour_deps decimal_toInt one_zone 1 Map.empty]
    by simp
qed

subsection \<open>TriScore\<close>

text \<open>
  C8. \<open>TriScore\<close> sets the value of the dependency its activity's discipline selects:
  \<open>swimscore\<close> for a swim, \<open>govss\<close> for a run, \<open>skiba_bike_score\<close> for anything
  else. Where that dependency is missing it faults with \<open>DependencyMissing\<close>, whatever
  the other two hold.
\<close>

theorem TriScore_selects_by_discipline:
  "(isSwim ride \<longrightarrow>
      TriScore_compute ride deps =
        (case deps ''swimscore'' of
           None \<Rightarrow> Inl DependencyMissing
         | Some m \<Rightarrow> Inr (Some \<lparr>setValue = mvalue m, setCount = None\<rparr>)))
   \<and> (\<not> isSwim ride \<and> isRun ride \<longrightarrow>
      TriScore_compute ride deps =
        (case deps ''govss'' of
           None \<Rightarrow> Inl DependencyMissing
         | Some m \<Rightarrow> Inr (Some \<lparr>setValue = mvalue m, setCount = None\<rparr>)))
   \<and> (\<not> isSwim ride \<and> \<not> isRun ride \<longrightarrow>
      TriScore_compute ride deps =
        (case deps ''skiba_bike_score'' of
           None \<Rightarrow> Inl DependencyMissing
         | Some m \<Rightarrow> Inr (Some \<lparr>setValue = mvalue m, setCount = None\<rparr>)))"
  by (simp add: TriScore_compute_def)

theorem TriScore_selects_witness:
  "TriScore_compute (empty_swim 1)
     [''swimscore'' \<mapsto> \<lparr>mvalue = 61, mcount = 1\<rparr>, ''govss'' \<mapsto> \<lparr>mvalue = 7, mcount = 1\<rparr>]
     = Inr (Some \<lparr>setValue = 61, setCount = None\<rparr>)
   \<and> TriScore_compute ((empty_swim 1)\<lparr>isSwim := False, isRun := True\<rparr>)
     [''swimscore'' \<mapsto> \<lparr>mvalue = 61, mcount = 1\<rparr>, ''govss'' \<mapsto> \<lparr>mvalue = 7, mcount = 1\<rparr>]
     = Inr (Some \<lparr>setValue = 7, setCount = None\<rparr>)
   \<and> TriScore_compute bike_ride
     [''swimscore'' \<mapsto> \<lparr>mvalue = 61, mcount = 1\<rparr>, ''govss'' \<mapsto> \<lparr>mvalue = 7, mcount = 1\<rparr>]
     = Inl DependencyMissing"
proof -
  let ?deps = "[''swimscore'' \<mapsto> \<lparr>mvalue = 61, mcount = 1\<rparr>,
                ''govss'' \<mapsto> \<lparr>mvalue = 7, mcount = (1::real)\<rparr>]"
  show ?thesis
    using TriScore_selects_by_discipline [of "empty_swim 1" ?deps]
      TriScore_selects_by_discipline
        [of "(empty_swim 1)\<lparr>isSwim := False, isRun := True\<rparr>" ?deps]
      TriScore_selects_by_discipline [of bike_ride ?deps]
    by (simp add: empty_swim_def bike_ride_def)
qed

subsection \<open>The drag model, there and back\<close>

text \<open>
  C4. For every weight of an athlete and every power \<open>p\<close> that is not negative,
  \<open>swimming_speed\<close> gives a speed without a fault, and \<open>swimming_power\<close> at that
  speed is \<open>p\<close> again. A weight is not negative, so its drag factor
  \<open>0.35 * weight + 2\<close> is positive, which is all the proof takes from it.
\<close>

theorem drag_model_round_trip:
  assumes "0 < 0.35 * weight + 2" and "0 \<le> p"
  shows "\<exists>speed. swimming_speed weight p = Inr speed
                \<and> swimming_power weight speed = p"
proof -
  define K where "K = 0.35 * weight + 2"
  have K: "0 < K" using assms(1) by (simp add: K_def)
  define x where "x = (0.6 / K) * p"
  have x: "0 \<le> x" using K assms(2) by (simp add: x_def)
  have speed: "swimming_speed weight p = Inr (root 3 x)"
    using K x by (simp add: swimming_speed_def fdiv_def pow_third_def K_def x_def Let_def)
  have "root 3 x ^ 3 = x"
    using x by (simp add: real_root_pow_pos2)
  then have "swimming_power weight (root 3 x) = (K / 0.6) * x"
    by (simp add: swimming_power_def pow3_def K_def Let_def)
  also have "\<dots> = p"
    using K by (simp add: x_def)
  finally show ?thesis using speed by simp
qed

theorem drag_model_round_trip_witness:
  "\<exists>speed. swimming_speed 70 (1325 / 30) = Inr speed
           \<and> swimming_power 70 speed = 1325 / 30"
  by (rule drag_model_round_trip) simp_all

subsection \<open>A gap of three recording intervals\<close>

text \<open>
  C2, as the claim states it, fails where the running value is not above \<open>NEGLIGIBLE\<close>:
  in \<open>paused_swim\<close> the two samples are 3 intervals apart, the swimmer rests at the
  first, the running value is 0 there, and the inner loop inserts no step. The activity
  ends with 2 steps counted, not 4.
\<close>

theorem gap_after_rest_inserts_no_step:
  "secs (dataPoints paused_swim ! 1)
     = secs (dataPoints paused_swim ! 0) + 3 * recIntSecs paused_swim
   \<and> decay_loop 1 \<lparr>secs = 4, kph = 0\<rparr>
        (sample_step 70 1 initial_state \<lparr>secs = 1, kph = 0\<rparr>)
     = sample_step 70 1 initial_state \<lparr>secs = 1, kph = 0\<rparr>
   \<and> XPowerSwim_compute paused_swim = Inr (Some \<lparr>setValue = 0, setCount = Some 2\<rparr>)"
proof -
  let ?s1 = "\<lparr>weighted = 0, lastSecs = 1, total = 0, count = 1\<rparr>"
  have "\<not> decay_cond 1 \<lparr>secs = 1, kph = 0\<rparr> initial_state"
    by (simp add: decay_cond_def initial_state_def NEGLIGIBLE_def)
  then have "decay_loop 1 \<lparr>secs = 1, kph = 0\<rparr> initial_state = initial_state"
    by (rule decay_loop_stop)
  then have s1: "sample_step 70 1 initial_state \<lparr>secs = 1, kph = 0\<rparr> = ?s1"
    by (simp add: sample_step_def initial_state_def swimming_power_zero pow3_def)
  have "\<not> decay_cond 1 \<lparr>secs = 4, kph = 0\<rparr> ?s1"
    by (simp add: decay_cond_def NEGLIGIBLE_def)
  then have stop: "decay_loop 1 \<lparr>secs = 4, kph = 0\<rparr> ?s1 = ?s1"
    by (rule decay_loop_stop)
  then have s2: "sample_step 70 1 ?s1 \<lparr>secs = 4, kph = 0\<rparr>
                 = \<lparr>weighted = 0, lastSecs = 4, total = 0, count = 2\<rparr>"
    by (simp add: sample_step_def swimming_power_zero pow3_def)
  have "XPowerSwim_compute paused_swim = Inr (Some \<lparr>setValue = 0, setCount = Some 2\<rparr>)"
    using s1 s2
    by (simp add: XPowerSwim_compute_def paused_swim_def sampsPerWindow_def fdiv_def
        pow_third_def)
  then show ?thesis
    using s1 stop by (simp add: paused_swim_def)
qed

text \<open>
  C2, amended: when a sample lies exactly 3 intervals after the time of the last step,
  the interval is longer than \<open>EPSILON\<close>, and the running value is still above
  \<open>NEGLIGIBLE\<close> after one attenuation, the inner loop runs its body exactly twice
  before the sample is processed. Each of the two steps multiplies the running value by
  the attenuation, adds no power, adds the cube of the value to the total and counts
  one step; the round for the sample counts 3 steps in all.
\<close>

theorem gap_of_three_intervals_inserts_two_decay_steps:
  assumes "EPSILON < d"
    and "secs point = lastSecs s + 3 * d"
    and "NEGLIGIBLE < weighted s * attenuation d"
  shows "decay_loop d point s = decay_body d (decay_body d s)
       \<and> weighted (decay_loop d point s) = weighted s * attenuation d * attenuation d
       \<and> total (decay_loop d point s)
           = total s + pow3 (weighted s * attenuation d)
                     + pow3 (weighted s * attenuation d * attenuation d)
       \<and> count (decay_loop d point s) = count s + 2
       \<and> count (sample_step weight d s point) = count s + 3"
proof -
  have d: "1 / 10 < d" using assms(1) by (simp add: EPSILON_def)
  have wa: "1 / 10 < weighted s * attenuation d"
    using assms(3) by (simp add: NEGLIGIBLE_def)
  have "\<not> weighted s \<le> 1 / 10"
  proof
    assume le: "weighted s \<le> 1 / 10"
    show False
    proof (cases "0 \<le> weighted s")
      case True
      then have "weighted s * attenuation d \<le> weighted s * 1"
        by (intro mult_left_mono less_imp_le [OF attenuation_less_one])
      with le wa show False by simp
    next
      case False
      then have "weighted s * attenuation d \<le> 0"
        by (simp add: mult_le_0_iff attenuation_nonneg)
      with wa show False by simp
    qed
  qed
  then have w: "1 / 10 < weighted s" by simp
  have c1: "decay_cond d point s"
    using d w assms(2) by (simp add: decay_cond_def NEGLIGIBLE_def EPSILON_def)
  have c2: "decay_cond d point (decay_body d s)"
    using d wa assms(2)
    by (simp add: decay_cond_def decay_body_def Let_def NEGLIGIBLE_def EPSILON_def)
  have c3: "\<not> decay_cond d point (decay_body d (decay_body d s))"
    using assms(2)
    by (simp add: decay_cond_def decay_body_def Let_def NEGLIGIBLE_def EPSILON_def)
  have loop: "decay_loop d point s = decay_body d (decay_body d s)"
    by (simp add: decay_loop_step [OF c1] decay_loop_step [OF c2] decay_loop_stop [OF c3])
  show ?thesis
    by (simp add: loop sample_step_def decay_body_def Let_def)
qed

theorem gap_of_three_intervals_witness:
  "decay_loop 1 \<lparr>secs = 4, kph = 0\<rparr> \<lparr>weighted = 52, lastSecs = 1, total = 0, count = 1\<rparr>
     = decay_body 1 (decay_body 1 \<lparr>weighted = 52, lastSecs = 1, total = 0, count = 1\<rparr>)
   \<and> count (decay_loop 1 \<lparr>secs = 4, kph = 0\<rparr>
        \<lparr>weighted = 52, lastSecs = 1, total = 0, count = 1\<rparr>) = 3
   \<and> count (sample_step 70 1 \<lparr>weighted = 52, lastSecs = 1, total = 0, count = 1\<rparr>
        \<lparr>secs = 4, kph = 0\<rparr>) = 4"
proof -
  have a: "attenuation 1 = 25 / 26"
    by (simp add: attenuation_def sampsPerWindow_def)
  have e: "EPSILON < (1::real)" by (simp add: EPSILON_def)
  have n: "NEGLIGIBLE
           < weighted \<lparr>weighted = 52, lastSecs = 1, total = 0, count = 1\<rparr> * attenuation 1"
    by (simp add: a NEGLIGIBLE_def)
  show ?thesis
    using gap_of_three_intervals_inserts_two_decay_steps
      [of 1 "\<lparr>secs = 4, kph = 0\<rparr>" "\<lparr>weighted = 52, lastSecs = 1, total = 0, count = 1\<rparr>" 70,
       OF e _ n]
    by (simp add: decay_body_def Let_def)
qed

subsection \<open>The running value stays within the range of the powers\<close>

lemma sampleWeight_eq: "d \<noteq> 0 \<Longrightarrow> sampleWeight d = d * d / (25 + d * d)"
proof -
  assume d: "d \<noteq> 0"
  have "25 / d + d = (25 + d * d) / d"
    using d by (simp add: field_simps)
  then show ?thesis
    using d by (simp add: sampleWeight_def sampsPerWindow_def)
qed

lemma sampleWeight_pos: "d \<noteq> 0 \<Longrightarrow> 0 < sampleWeight d"
proof -
  assume d: "d \<noteq> 0"
  then have "0 < d * d" by (simp add: zero_less_mult_iff not_less less_le)
  then show ?thesis using d by (simp add: sampleWeight_eq add_pos_pos)
qed

lemma loop_weights_sum: "d \<noteq> 0 \<Longrightarrow> attenuation d + sampleWeight d = 1"
proof -
  assume d: "d \<noteq> 0"
  then have "0 < d * d" by (simp add: zero_less_mult_iff not_less less_le)
  then have "25 + d * d \<noteq> 0" by simp
  then show ?thesis
    using d by (simp add: attenuation_eq sampleWeight_eq add_divide_distrib [symmetric])
qed

lemma swimming_power_nonneg:
  "0 \<le> 0.35 * w + 2 \<Longrightarrow> 0 \<le> v \<Longrightarrow> 0 \<le> swimming_power w v"
  by (simp add: swimming_power_def pow3_def Let_def)

lemma weighted_decay_iterate:
  "weighted ((decay_body d ^^ n) s) = weighted s * attenuation d ^ n"
  by (induction n) (simp_all add: decay_body_def Let_def)

lemma decay_iterate_bounds:
  assumes "0 \<le> weighted s" and "weighted s \<le> m"
  shows "0 \<le> weighted ((decay_body d ^^ n) s) \<and> weighted ((decay_body d ^^ n) s) \<le> m"
proof -
  have a0: "0 \<le> attenuation d ^ n"
    by (simp add: attenuation_nonneg)
  have a1: "attenuation d ^ n \<le> 1"
    by (simp add: power_le_one attenuation_nonneg less_imp_le [OF attenuation_less_one])
  have "weighted s * attenuation d ^ n \<le> weighted s * 1"
    using assms(1) a1 by (intro mult_left_mono)
  then show ?thesis
    using assms a0 by (simp add: weighted_decay_iterate)
qed

lemma decay_loop_is_iterate: "\<exists>n. decay_loop d point s = (decay_body d ^^ n) s"
proof (induction d point s rule: decay_loop.induct)
  case (1 secsDelta point s)
  show ?case
  proof (cases "decay_cond secsDelta point s")
    case True
    with "1" obtain n where
      "decay_loop secsDelta point (decay_body secsDelta s)
       = (decay_body secsDelta ^^ n) (decay_body secsDelta s)"
      by blast
    then have "decay_loop secsDelta point s = (decay_body secsDelta ^^ Suc n) s"
      using True by (simp add: decay_loop_step funpow_swap1)
    then show ?thesis by blast
  next
    case False
    then have "decay_loop secsDelta point s = (decay_body secsDelta ^^ 0) s"
      by (simp add: decay_loop_stop)
    then show ?thesis by blast
  qed
qed

lemma sample_step_bounds:
  assumes d: "d \<noteq> 0"
    and s: "0 \<le> weighted s" "weighted s \<le> m"
    and p: "0 \<le> swimming_power weight (kph point / 3.6)"
  shows "0 \<le> weighted (sample_step weight d s point)
       \<and> weighted (sample_step weight d s point)
           \<le> max m (swimming_power weight (kph point / 3.6))"
proof -
  define pw where "pw = swimming_power weight (kph point / 3.6)"
  define a where "a = attenuation d"
  define b where "b = sampleWeight d"
  obtain n where n: "decay_loop d point s = (decay_body d ^^ n) s"
    using decay_loop_is_iterate by blast
  define w1 where "w1 = weighted (decay_loop d point s)"
  have w1: "0 \<le> w1" "w1 \<le> m"
    using decay_iterate_bounds [OF s, where d = d and n = n] by (simp_all add: w1_def n)
  have a: "0 \<le> a" by (simp add: a_def attenuation_nonneg)
  have b: "0 \<le> b" using d by (simp add: b_def less_imp_le [OF sampleWeight_pos])
  have ab: "a + b = 1" using d by (simp add: a_def b_def loop_weights_sum)
  have eq: "weighted (sample_step weight d s point) = w1 * a + b * pw"
    by (simp add: sample_step_def Let_def w1_def a_def b_def pw_def)
  have lower: "0 \<le> w1 * a + b * pw"
    using w1(1) a b p by (simp add: pw_def)
  have "w1 * a \<le> max m pw * a"
    using w1(2) a by (intro mult_right_mono) simp_all
  moreover have "b * pw \<le> b * max m pw"
    using b by (intro mult_left_mono) simp_all
  ultimately have "w1 * a + b * pw \<le> max m pw * a + b * max m pw"
    by (rule add_mono)
  also have "\<dots> = max m pw * (a + b)"
    by (simp only: distrib_left mult.commute [of b])
  finally have upper: "w1 * a + b * pw \<le> max m pw"
    by (simp add: ab)
  show ?thesis
    using lower upper by (simp add: eq pw_def)
qed

lemma samples_loop_bounds:
  assumes d: "d \<noteq> 0" and K: "0 \<le> 0.35 * weight + 2"
    and speeds: "\<forall>p \<in> set points. 0 \<le> kph p"
    and m: "0 \<le> m" "\<forall>p \<in> set points. swimming_power weight (kph p / 3.6) \<le> m"
  shows "0 \<le> weighted (foldl (sample_step weight d) initial_state points)
       \<and> weighted (foldl (sample_step weight d) initial_state points) \<le> m"
  using speeds m(2)
proof (induction points rule: rev_induct)
  case Nil
  then show ?case using m(1) by (simp add: initial_state_def)
next
  case (snoc p ps)
  let ?s = "foldl (sample_step weight d) initial_state ps"
  have ih: "0 \<le> weighted ?s" "weighted ?s \<le> m"
    using snoc by simp_all
  have p: "0 \<le> swimming_power weight (kph p / 3.6)"
    using snoc.prems K by (simp add: swimming_power_nonneg)
  have "swimming_power weight (kph p / 3.6) \<le> m"
    using snoc.prems by simp
  then have "max m (swimming_power weight (kph p / 3.6)) = m"
    by (simp add: max_def)
  then show ?case
    using sample_step_bounds [OF d ih p] by simp
qed

lemma fl_eq:
  assumes "2 powi k \<le> \<bar>x\<bar>" and "\<bar>x\<bar> < 2 powi (k + 1)"
  shows "fl x = of_int (round_half_even (x / 2 powi (k - 52))) * 2 powi (k - 52)"
proof -
  have "(0::real) < 2 powi k" by simp
  then have x: "0 < \<bar>x\<bar>" using assms(1) by linarith
  have p: "(2::real) powr real_of_int i = 2 powi i" for i
    by (rule powr_real_of_int') simp_all
  have "2 powr real_of_int k \<le> \<bar>x\<bar> \<and> \<bar>x\<bar> < 2 powr real_of_int (k + 1)"
    using assms by (simp only: p)
  then have "\<lfloor>log 2 \<bar>x\<bar>\<rfloor> = k"
    using x floor_log_eq_powr_iff [of "\<bar>x\<bar>" 2 k] by simp
  then show ?thesis
    using x by (simp add: fl_def Let_def)
qed

lemma fl_val:
  assumes "2 powi k \<le> \<bar>x\<bar>" and "\<bar>x\<bar> < 2 powi (k + 1)"
    and "round_half_even (x / 2 powi (k - 52)) = m"
    and "of_int m * 2 powi (k - 52) = y"
  shows "fl x = y"
  using fl_eq [OF assms(1,2)] assms(3,4) by simp

text \<open>
  C10, as the claim states it, fails in the doubles of the code, by their rounding. At
  a recording interval of 1 second the code holds the doubles nearest to \<open>25 / 26\<close> and
  to \<open>1 / 26\<close>, and they sum to \<open>1 + 1 / 2 ^ 55\<close>, not to 1. At 0.2 seconds (the double
  nearest to it) even the sum taken in doubles is not 1 but the double just below it.
  What does not sum exactly to 1 is not an exact convex combination either, so the
  running value can pass the largest power by such a rounding error.
\<close>

theorem loop_weights_do_not_sum_to_one_in_doubles:
  "(0::real) < 1 \<and> 0 < fl (2 / 10)
   \<and> attenuation_fl 1 + sampleWeight_fl 1 = 1 + 1 / 2 ^ 55
   \<and> fl (attenuation_fl (fl (2 / 10)) + sampleWeight_fl (fl (2 / 10))) = 1 - 1 / 2 ^ 53"
proof -
  have r25: "fl 25 = 25"
    by (rule fl_val [where k = 4 and m = "25 * 2 ^ 48"])
      (simp_all add: round_half_even_def power_int_minus)
  have r26: "fl 26 = 26"
    by (rule fl_val [where k = 4 and m = "26 * 2 ^ 48"])
      (simp_all add: round_half_even_def power_int_minus)
  have a1: "fl (25 / 26) = 8660768514174031 / 2 ^ 53"
    by (rule fl_val [where k = "- 1" and m = 8660768514174031])
      (simp_all add: round_half_even_def power_int_minus)
  have b1: "fl (1 / 26) = 1385722962267845 / 2 ^ 55"
    by (rule fl_val [where k = "- 5" and m = 5542891849071380])
      (simp_all add: round_half_even_def power_int_minus)
  have one: "attenuation_fl 1 + sampleWeight_fl 1 = 1 + 1 / 2 ^ 55"
    by (simp add: attenuation_fl_def sampleWeight_fl_def sampsPerWindow_fl_def r25 r26 a1 b1)
  have d: "fl (2 / 10) = 3602879701896397 / 2 ^ 54"
    by (rule fl_val [where k = "- 3" and m = 7205759403792794])
      (simp_all add: round_half_even_def power_int_minus)
  have spw: "fl (25 / (3602879701896397 / 2 ^ 54)) = 125"
    by (rule fl_val [where k = 6 and m = 8796093022208000])
      (simp_all add: round_half_even_def power_int_minus)
  have den: "fl (125 + 3602879701896397 / 2 ^ 54) = 8810166771043533 / 2 ^ 46"
    by (rule fl_val [where k = 6 and m = 8810166771043533])
      (simp_all add: round_half_even_def power_int_minus)
  have att: "fl (125 / (8810166771043533 / 2 ^ 46)) = 8992810757528945 / 2 ^ 53"
    by (rule fl_val [where k = "- 1" and m = 8992810757528945])
      (simp_all add: round_half_even_def power_int_minus)
  have sw: "fl (3602879701896397 / 2 ^ 54 / (8810166771043533 / 2 ^ 46))
            = 7366910572567713 / 2 ^ 62"
    by (rule fl_val [where k = "- 10" and m = 7366910572567713])
      (simp_all add: round_half_even_def power_int_minus)
  have sum: "fl (8992810757528945 / 2 ^ 53 + 7366910572567713 / 2 ^ 62) = 1 - 1 / 2 ^ 53"
    by (rule fl_val [where k = "- 1" and m = 9007199254740991])
      (simp_all add: round_half_even_def power_int_minus)
  have "fl (attenuation_fl (fl (2 / 10)) + sampleWeight_fl (fl (2 / 10))) = 1 - 1 / 2 ^ 53"
    unfolding attenuation_fl_def sampleWeight_fl_def sampsPerWindow_fl_def d spw den att sw sum
    by (rule refl)
  moreover have "0 < fl (2 / 10)"
    unfolding d by simp
  ultimately show ?thesis
    using one by simp
qed

text \<open>
  C10, amended: the invariant within floating tolerance, which is to say exactly where
  doubles are read as reals. For every positive recording interval the attenuation and
  the sample weight are positive and sum to 1. For samples whose speeds are not negative
  (and an athlete's weight, whose drag factor is not negative), take the state after the
  first \<open>k\<close> samples (\<open>k\<close> at least 1) and the largest instantaneous power \<open>m\<close> among
  those samples. The running value of that state lies between 0 and \<open>m\<close>; so does the
  running value after any number of runs of the inner loop's body from that state; and
  what the inner loop does before the next sample is some number of runs of its body.
\<close>

theorem weighted_within_power_range:
  assumes "0 < d" and "0 \<le> 0.35 * weight + 2"
    and "\<forall>p \<in> set points. 0 \<le> kph p"
    and "0 < k" and "k \<le> length points"
  shows "attenuation d + sampleWeight d = 1
       \<and> 0 < attenuation d \<and> 0 < sampleWeight d
       \<and> (let s = foldl (sample_step weight d) initial_state (take k points);
               m = Max ((\<lambda>p. swimming_power weight (kph p / 3.6)) ` set (take k points))
           in 0 \<le> weighted s \<and> weighted s \<le> m
            \<and> (\<forall>n. 0 \<le> weighted ((decay_body d ^^ n) s)
                   \<and> weighted ((decay_body d ^^ n) s) \<le> m)
            \<and> (\<forall>point. \<exists>n. decay_loop d point s = (decay_body d ^^ n) s))"
proof -
  let ?pw = "\<lambda>p. swimming_power weight (kph p / 3.6)"
  let ?ps = "take k points"
  let ?s = "foldl (sample_step weight d) initial_state ?ps"
  have d: "d \<noteq> 0" using assms(1) by simp
  have speeds: "\<forall>p \<in> set ?ps. 0 \<le> kph p"
    using assms(3) by (meson in_set_takeD)
  have ne: "?ps \<noteq> []"
    using assms(4,5) by auto
  then obtain q where q: "q \<in> set ?ps"
    by (cases ?ps) auto
  have upper: "\<forall>p \<in> set ?ps. ?pw p \<le> Max (?pw ` set ?ps)"
    by simp
  have "0 \<le> ?pw q"
    using q speeds assms(2) by (simp add: swimming_power_nonneg)
  also have "?pw q \<le> Max (?pw ` set ?ps)"
    using q upper by blast
  finally have m: "0 \<le> Max (?pw ` set ?ps)" .
  have s: "0 \<le> weighted ?s" "weighted ?s \<le> Max (?pw ` set ?ps)"
    using samples_loop_bounds [OF d assms(2) speeds m upper] by simp_all
  have "\<forall>n. 0 \<le> weighted ((decay_body d ^^ n) ?s)
           \<and> weighted ((decay_body d ^^ n) ?s) \<le> Max (?pw ` set ?ps)"
    using decay_iterate_bounds [OF s] by blast
  moreover have "\<forall>point. \<exists>n. decay_loop d point ?s = (decay_body d ^^ n) ?s"
    using decay_loop_is_iterate by blast
  ultimately show ?thesis
    using s d by (simp add: loop_weights_sum attenuation_pos sampleWeight_pos Let_def)
qed

theorem weighted_within_power_range_witness:
  "attenuation 1 + sampleWeight 1 = 1
   \<and> 0 \<le> weighted (foldl (sample_step 70 1) initial_state
                      [\<lparr>secs = 1, kph = 3.6\<rparr>, \<lparr>secs = 2, kph = 7.2\<rparr>])
   \<and> weighted (foldl (sample_step 70 1) initial_state
                 [\<lparr>secs = 1, kph = 3.6\<rparr>, \<lparr>secs = 2, kph = 7.2\<rparr>])
       \<le> swimming_power 70 2
   \<and> (\<forall>n. weighted ((decay_body 1 ^^ n)
                 (foldl (sample_step 70 1) initial_state
                    [\<lparr>secs = 1, kph = 3.6\<rparr>, \<lparr>secs = 2, kph = 7.2\<rparr>]))
           \<le> swimming_power 70 2)"
proof -
  let ?points = "[\<lparr>secs = 1, kph = 3.6\<rparr>, \<lparr>secs = 2, kph = 7.2\<rparr>]"
  have m: "Max ((\<lambda>p. swimming_power 70 (kph p / 3.6)) ` set (take 2 ?points))
           = swimming_power 70 2"
    by (simp add: swimming_power_def pow3_def)
  have "\<forall>p \<in> set ?points. 0 \<le> kph p" by simp
  then show ?thesis
    using weighted_within_power_range [of 1 70 ?points 2] m
    by (simp add: Let_def)
qed

subsection \<open>A constant speed\<close>

lemma steady_points_Suc:
  "steady_points d v (Suc n) = steady_points d v n @ [\<lparr>secs = real (Suc n) * d, kph = v\<rparr>]"
  by (simp add: steady_points_def)

lemma steady_fold:
  assumes d: "d \<noteq> 0"
  shows "foldl (sample_step weight d) initial_state (steady_points d v n)
         = \<lparr>weighted = swimming_power weight (v / 3.6) * (1 - attenuation d ^ n),
            lastSecs = real n * d,
            total = swimming_power weight (v / 3.6) ^ 3
                      * (\<Sum>i<n. (1 - attenuation d ^ Suc i) ^ 3),
            count = n\<rparr>"
proof (induction n)
  case 0
  then show ?case by (simp add: steady_points_def initial_state_def)
next
  case (Suc n)
  define pw where "pw = swimming_power weight (v / 3.6)"
  define a where "a = attenuation d"
  let ?s = "\<lparr>weighted = pw * (1 - a ^ n), lastSecs = real n * d,
             total = pw ^ 3 * (\<Sum>i<n. (1 - a ^ Suc i) ^ 3), count = n\<rparr>"
  let ?p = "\<lparr>secs = real (Suc n) * d, kph = v\<rparr>"
  have b: "sampleWeight d = 1 - a"
    using loop_weights_sum [OF d] by (simp add: a_def)
  have "\<not> decay_cond d ?p ?s"
    by (simp add: decay_cond_def EPSILON_def distrib_right)
  then have stop: "decay_loop d ?p ?s = ?s"
    by (rule decay_loop_stop)
  have w: "pw * (1 - a ^ n) * a + (1 - a) * pw = pw * (1 - a ^ Suc n)"
    by (simp add: algebra_simps)
  have "sample_step weight d ?s ?p
        = \<lparr>weighted = pw * (1 - a ^ Suc n), lastSecs = real (Suc n) * d,
           total = pw ^ 3 * (\<Sum>i<n. (1 - a ^ Suc i) ^ 3) + (pw * (1 - a ^ Suc n)) ^ 3,
           count = Suc n\<rparr>"
    unfolding sample_step_def Let_def stop
    by (simp only: loop_state.simps b w pow3_def a_def [symmetric] pw_def [symmetric]
        RideFilePoint.simps) simp
  moreover have "pw ^ 3 * (\<Sum>i<n. (1 - a ^ Suc i) ^ 3) + (pw * (1 - a ^ Suc n)) ^ 3
                 = pw ^ 3 * (\<Sum>i<Suc n. (1 - a ^ Suc i) ^ 3)"
    by (simp add: power_mult_distrib distrib_left)
  ultimately show ?case
    using Suc by (simp add: steady_points_Suc pw_def a_def)
qed

lemma cube_lower: "0 \<le> y \<Longrightarrow> y \<le> 1 \<Longrightarrow> 1 - 3 * y + 2 * y ^ 2 \<le> (1 - y) ^ 3" for y :: real
proof -
  assume y: "0 \<le> y" "y \<le> 1"
  have "y ^ 2 * y \<le> y ^ 2 * 1"
    using y by (intro mult_left_mono) simp_all
  then have "y ^ 3 \<le> y ^ 2"
    by (simp add: power3_eq_cube power2_eq_square)
  moreover have "(1 - y) ^ 3 = 1 - 3 * y + 3 * y ^ 2 - y ^ 3"
    by (simp add: power3_eq_cube power2_eq_square algebra_simps)
  ultimately show ?thesis by simp
qed

lemma cube_upper: "0 \<le> y \<Longrightarrow> y \<le> 1 \<Longrightarrow> (1 - y) ^ 3 \<le> 1" for y :: real
  by (simp add: power_le_one)

lemma geometric_sum_less_one:
  fixes r :: real
  assumes "0 \<le> r" and "r < 1"
  shows "(\<Sum>i<n. r ^ i) = (1 - r ^ n) / (1 - r)"
proof -
  have "(\<Sum>i<n. r ^ i) = (r ^ n - 1) / (r - 1)"
    using assms by (simp add: geometric_sum)
  also have "\<dots> = (1 - r ^ n) / (1 - r)"
    by (metis minus_diff_eq minus_divide_divide)
  finally show ?thesis .
qed

text \<open>The sum of the cubes along a constant speed, from below and from above.\<close>

lemma cubes_sum_bounds:
  fixes a :: real
  assumes a: "0 \<le> a" "a < 1"
  shows "real n - 3 * a * ((1 - a ^ n) / (1 - a))
           + 2 * a ^ 2 * ((1 - (a ^ 2) ^ n) / (1 - a ^ 2))
         \<le> (\<Sum>i<n. (1 - a ^ Suc i) ^ 3)"
    and "(\<Sum>i<n. (1 - a ^ Suc i) ^ 3) \<le> real n"
    and "0 \<le> (\<Sum>i<n. (1 - a ^ Suc i) ^ 3)"
proof -
  have y0: "0 \<le> a ^ Suc i" for i
    using a by simp
  have y1: "a ^ Suc i \<le> 1" for i
    using a by (simp add: power_le_one mult_le_one)
  have a2: "0 \<le> a ^ 2" "a ^ 2 < 1"
    using a by (simp_all add: power_less_one_iff)
  have "(\<Sum>i<n. 1 - 3 * a ^ Suc i + 2 * (a ^ Suc i) ^ 2) \<le> (\<Sum>i<n. (1 - a ^ Suc i) ^ 3)"
    by (intro sum_mono cube_lower y0 y1)
  moreover have "(\<Sum>i<n. 1 - 3 * a ^ Suc i + 2 * (a ^ Suc i) ^ 2)
                 = real n - 3 * a * (\<Sum>i<n. a ^ i) + 2 * a ^ 2 * (\<Sum>i<n. (a ^ 2) ^ i)"
  proof -
    have "(a ^ Suc i) ^ 2 = a ^ 2 * (a ^ 2) ^ i" for i
      by (simp add: power_mult_distrib power_mult [symmetric] mult.commute)
    then have "(\<Sum>i<n. 1 - 3 * a ^ Suc i + 2 * (a ^ Suc i) ^ 2)
               = (\<Sum>i<n. 1 - 3 * a * a ^ i + 2 * a ^ 2 * (a ^ 2) ^ i)"
      by (simp add: mult.assoc)
    also have "\<dots> = (\<Sum>i<n. 1) - (\<Sum>i<n. 3 * a * a ^ i) + (\<Sum>i<n. 2 * a ^ 2 * (a ^ 2) ^ i)"
      by (simp only: sum.distrib sum_subtractf)
    also have "\<dots> = real n - 3 * a * (\<Sum>i<n. a ^ i) + 2 * a ^ 2 * (\<Sum>i<n. (a ^ 2) ^ i)"
      by (simp only: sum_distrib_left [symmetric] sum_constant card_lessThan)
    finally show ?thesis .
  qed
  ultimately show "real n - 3 * a * ((1 - a ^ n) / (1 - a))
           + 2 * a ^ 2 * ((1 - (a ^ 2) ^ n) / (1 - a ^ 2))
         \<le> (\<Sum>i<n. (1 - a ^ Suc i) ^ 3)"
    by (simp only: geometric_sum_less_one [OF a] geometric_sum_less_one [OF a2])
  have "(\<Sum>i<n. (1 - a ^ Suc i) ^ 3) \<le> (\<Sum>i<n. 1)"
    by (intro sum_mono cube_upper y0 y1)
  then show "(\<Sum>i<n. (1 - a ^ Suc i) ^ 3) \<le> real n"
    by simp
  show "0 \<le> (\<Sum>i<n. (1 - a ^ Suc i) ^ 3)"
  proof (intro sum_nonneg zero_le_power)
    fix i
    show "0 \<le> 1 - a ^ Suc i" using y1 [of i] by simp
  qed
qed

lemma root3_bounds:
  assumes "0 \<le> r" and "r \<le> 1"
  shows "r \<le> root 3 r" and "root 3 r \<le> 1"
proof -
  have "r ^ 3 \<le> r ^ 1"
    using assms by (intro power_decreasing) simp_all
  then have "root 3 (r ^ 3) \<le> root 3 r"
    by (simp add: real_root_le_mono)
  then show "r \<le> root 3 r"
    using assms(1) by (simp add: real_root_power_cancel)
  have "root 3 r \<le> root 3 1"
    using assms(2) by (simp add: real_root_le_mono)
  then show "root 3 r \<le> 1" by simp
qed

lemma steady_compute:
  assumes d: "0 < d" and n: "0 < n" and K: "0 \<le> 0.35 * weight + 2" and v: "0 \<le> v"
  shows "XPowerSwim_compute (steady_swim weight d v n)
         = Inr (Some \<lparr>setValue = swimming_power weight (v / 3.6)
                              * root 3 ((\<Sum>i<n. (1 - attenuation d ^ Suc i) ^ 3) / real n),
                     setCount = Some (real n * d)\<rparr>)"
proof -
  define pw where "pw = swimming_power weight (v / 3.6)"
  define S where "S = (\<Sum>i<n. (1 - attenuation d ^ Suc i) ^ 3)"
  have pw: "0 \<le> pw"
    using K v by (simp add: pw_def swimming_power_nonneg)
  have S: "0 \<le> S"
    unfolding S_def
    by (rule cubes_sum_bounds(3) [OF attenuation_nonneg attenuation_less_one])
  have window: "sampsPerWindow d + d \<noteq> 0"
  proof -
    have "0 < 25 / d + d" using d by (simp add: add_pos_pos)
    then show ?thesis by (simp add: sampsPerWindow_def)
  qed
  have fold: "foldl (sample_step weight d) initial_state (steady_points d v n)
              = \<lparr>weighted = pw * (1 - attenuation d ^ n), lastSecs = real n * d,
                 total = pw ^ 3 * S, count = n\<rparr>"
    using d by (simp add: steady_fold pw_def S_def)
  have mean: "0 \<le> pw ^ 3 * S / real n"
    using pw S by simp
  have "root 3 (pw ^ 3 * S / real n) = root 3 (pw ^ 3) * root 3 (S / real n)"
    by (simp add: real_root_mult [symmetric])
  also have "\<dots> = pw * root 3 (S / real n)"
    using pw by (simp add: real_root_power_cancel)
  finally have root: "root 3 (pw ^ 3 * S / real n) = pw * root 3 (S / real n)" .
  have "XPowerSwim_compute (steady_swim weight d v n)
        = Inr (Some \<lparr>setValue = root 3 (pw ^ 3 * S / real n),
                    setCount = Some (real n * d)\<rparr>)"
    using d n window mean
    by (simp add: XPowerSwim_compute_def steady_swim_def fold fdiv_def pow_third_def
        Let_def not_less)
  then show ?thesis
    by (simp only: root) (simp only: pw_def S_def)
qed

lemma attenuation_ratio: "0 < d \<Longrightarrow> attenuation d / (1 - attenuation d) = 25 / (d * d)"
proof -
  assume d: "0 < d"
  then have dd: "0 < d * d" by simp
  then have c: "25 + d * d \<noteq> 0" by simp
  have "1 - attenuation d = sampleWeight d"
    using loop_weights_sum [of d] d by simp
  then have "1 - attenuation d = d * d / (25 + d * d)"
    using d by (simp add: sampleWeight_eq)
  then have "attenuation d / (1 - attenuation d)
             = (25 / (25 + d * d)) / (d * d / (25 + d * d))"
    using d by (simp only: attenuation_eq [of d])
  also have "\<dots> = ((25 + d * d) * 25) / ((25 + d * d) * (d * d))"
    by (simp only: divide_divide_times_eq mult.commute)
  also have "\<dots> = 25 / (d * d)"
    by (rule mult_divide_mult_cancel_left [OF c])
  finally show ?thesis .
qed

lemma steady_ratio_lower:
  assumes d: "0 < d" and n: "0 < n"
  shows "1 - 75 / (d * d * real n) \<le> (\<Sum>i<n. (1 - attenuation d ^ Suc i) ^ 3) / real n"
proof -
  define a where "a = attenuation d"
  have a: "0 \<le> a" "a < 1"
    by (simp_all add: a_def attenuation_nonneg attenuation_less_one)
  have a2: "0 \<le> a ^ 2" "a ^ 2 < 1"
    using a by (simp_all add: power_less_one_iff)
  have an: "0 \<le> a ^ n" "a ^ n \<le> 1" "(a ^ 2) ^ n \<le> 1"
    using a a2 by (simp_all add: power_le_one)
  have "(1 - a ^ n) / (1 - a) \<le> 1 / (1 - a)"
    using a an by (intro divide_right_mono) simp_all
  then have "3 * a * ((1 - a ^ n) / (1 - a)) \<le> 3 * a * (1 / (1 - a))"
    using a by (intro mult_left_mono) simp_all
  also have "\<dots> = 3 * (a / (1 - a))" by simp
  also have "\<dots> = 75 / (d * d)"
    using d by (simp add: a_def attenuation_ratio)
  finally have first: "3 * a * ((1 - a ^ n) / (1 - a)) \<le> 75 / (d * d)" .
  have second: "0 \<le> 2 * a ^ 2 * ((1 - (a ^ 2) ^ n) / (1 - a ^ 2))"
    using a2 an by simp
  have "real n - 75 / (d * d)
        \<le> real n - 3 * a * ((1 - a ^ n) / (1 - a))
            + 2 * a ^ 2 * ((1 - (a ^ 2) ^ n) / (1 - a ^ 2))"
    using first second by simp
  also have "\<dots> \<le> (\<Sum>i<n. (1 - a ^ Suc i) ^ 3)"
    by (rule cubes_sum_bounds(1) [OF a])
  finally have "(real n - 75 / (d * d)) / real n \<le> (\<Sum>i<n. (1 - a ^ Suc i) ^ 3) / real n"
    by (intro divide_right_mono) simp_all
  moreover have "(real n - 75 / (d * d)) / real n = 1 - 75 / (d * d * real n)"
    using n by (simp add: diff_divide_distrib)
  ultimately show ?thesis by (simp add: a_def)
qed

lemma power_numeric: "((25 / 26 :: real) ^ 2) ^ 50 \<le> 1 / 10"
  by (simp add: power_divide)

lemma hour_ratio_lower:
  "(995 / 1000 :: real) ^ 3 \<le> (\<Sum>i<3600. (1 - attenuation 1 ^ Suc i) ^ 3) / real 3600"
proof -
  define a :: real where "a = 25 / 26"
  have att: "attenuation 1 = a"
    by (simp add: attenuation_def sampsPerWindow_def a_def)
  have a: "0 \<le> a" "a < 1" by (simp_all add: a_def)
  have a2: "0 \<le> a ^ 2" "a ^ 2 \<le> 1" by (simp_all add: a_def power2_eq_square)
  have "(a ^ 2) ^ 3600 \<le> (a ^ 2) ^ 50"
    using a2 by (intro power_decreasing) simp_all
  also have "\<dots> \<le> 1 / 10"
    unfolding a_def by (rule power_numeric)
  finally have tail: "(a ^ 2) ^ 3600 \<le> 1 / 10" .
  have an: "0 \<le> a ^ 3600" using a by simp
  have "(1 - a ^ 3600) / (1 - a) \<le> 1 / (1 - a)"
    using a an by (intro divide_right_mono) simp_all
  then have "3 * a * ((1 - a ^ 3600) / (1 - a)) \<le> 3 * a * (1 / (1 - a))"
    using a by (intro mult_left_mono) simp_all
  also have "\<dots> = 75" by (simp add: a_def)
  finally have first: "3 * a * ((1 - a ^ 3600) / (1 - a)) \<le> 75" .
  have "(9 / 10) / (1 - a ^ 2) \<le> (1 - (a ^ 2) ^ 3600) / (1 - a ^ 2)"
    using tail a2 by (intro divide_right_mono) simp_all
  then have "2 * a ^ 2 * ((9 / 10) / (1 - a ^ 2))
             \<le> 2 * a ^ 2 * ((1 - (a ^ 2) ^ 3600) / (1 - a ^ 2))"
    using a2 by (intro mult_left_mono) simp_all
  moreover have "2 * a ^ 2 * ((9 / 10) / (1 - a ^ 2)) = 1125 / 51"
    by (simp add: a_def power2_eq_square)
  ultimately have second: "1125 / 51 \<le> 2 * a ^ 2 * ((1 - (a ^ 2) ^ 3600) / (1 - a ^ 2))"
    by simp
  have "real 3600 - 75 + 1125 / 51
        \<le> real 3600 - 3 * a * ((1 - a ^ 3600) / (1 - a))
            + 2 * a ^ 2 * ((1 - (a ^ 2) ^ 3600) / (1 - a ^ 2))"
    using first second by simp
  also have "\<dots> \<le> (\<Sum>i<3600. (1 - a ^ Suc i) ^ 3)"
    by (rule cubes_sum_bounds(1) [OF a])
  finally have "(real 3600 - 75 + 1125 / 51) / real 3600
                \<le> (\<Sum>i<3600. (1 - a ^ Suc i) ^ 3) / real 3600"
    by (intro divide_right_mono) simp_all
  moreover have "(995 / 1000 :: real) ^ 3 \<le> (real 3600 - 75 + 1125 / 51) / real 3600"
    by (simp add: power3_eq_cube)
  ultimately show ?thesis
    unfolding att by (rule order_trans [rotated])
qed

text \<open>
  C9. Take \<open>n\<close> samples of the constant speed \<open>v\<close>, one every \<open>d\<close> seconds, and let
  \<open>P\<close> be the drag-model power at that speed. The running value after the \<open>n\<close> samples is
  \<open>P * (1 - attenuation ^ n)\<close>, which converges to \<open>P\<close> as \<open>n\<close> grows. \<open>XPowerSwim\<close>
  sets a value between \<open>P * (1 - 75 / (d * d * n))\<close> and \<open>P\<close>, so the value approaches
  \<open>P\<close> as the swim gets long next to the window, and the duration \<open>n * d\<close>. For a mass
  of 70 kg, 1.2 m/s (4.32 km/h), an interval of 1 second and 3600 samples the value is
  within 0.5 percent of \<open>(0.35 * 70 + 2) / 0.6 * 1.2 ^ 3\<close>, and of 76.3, and the duration
  is 3600 seconds.
\<close>

theorem steady_speed_approaches_drag_power:
  assumes "0 < d" and "0 < n" and "0 \<le> 0.35 * weight + 2" and "0 \<le> v"
  shows "weighted (foldl (sample_step weight d) initial_state (steady_points d v n))
           = swimming_power weight (v / 3.6) * (1 - attenuation d ^ n)
       \<and> (\<lambda>m. weighted (foldl (sample_step weight d) initial_state (steady_points d v m)))
           \<longlonglongrightarrow> swimming_power weight (v / 3.6)
       \<and> (\<exists>x. XPowerSwim_compute (steady_swim weight d v n)
                  = Inr (Some \<lparr>setValue = x, setCount = Some (real n * d)\<rparr>)
              \<and> swimming_power weight (v / 3.6) * (1 - 75 / (d * d * real n)) \<le> x
              \<and> x \<le> swimming_power weight (v / 3.6))
       \<and> (\<exists>x. XPowerSwim_compute (steady_swim 70 1 4.32 3600)
                  = Inr (Some \<lparr>setValue = x, setCount = Some 3600\<rparr>)
              \<and> \<bar>x - (0.35 * 70 + 2) / 0.6 * 1.2 ^ 3\<bar>
                  \<le> 0.005 * ((0.35 * 70 + 2) / 0.6 * 1.2 ^ 3)
              \<and> \<bar>x - 76.3\<bar> \<le> 0.005 * 76.3)"
proof -
  define pw where "pw = swimming_power weight (v / 3.6)"
  define a where "a = attenuation d"
  have d: "d \<noteq> 0" using assms(1) by simp
  have a: "0 \<le> a" "a < 1"
    by (simp_all add: a_def attenuation_nonneg attenuation_less_one)
  have pw: "0 \<le> pw"
    using assms(3,4) by (simp add: pw_def swimming_power_nonneg)
  have running: "weighted (foldl (sample_step weight d) initial_state (steady_points d v m))
                 = pw * (1 - a ^ m)" for m
    by (simp add: steady_fold [OF d] pw_def a_def)
  have "(\<lambda>m. a ^ m) \<longlonglongrightarrow> 0"
    using a by (rule LIMSEQ_realpow_zero)
  then have "(\<lambda>m. pw * (1 - a ^ m)) \<longlonglongrightarrow> pw * (1 - 0)"
    by (intro tendsto_mult tendsto_diff tendsto_const)
  then have limit: "(\<lambda>m. weighted (foldl (sample_step weight d) initial_state
                             (steady_points d v m))) \<longlonglongrightarrow> pw"
    by (simp add: running)
  define r where "r = (\<Sum>i<n. (1 - a ^ Suc i) ^ 3) / real n"
  have r0: "0 \<le> r"
    using cubes_sum_bounds(3) [OF a, of n] by (simp add: r_def)
  have "(\<Sum>i<n. (1 - a ^ Suc i) ^ 3) / real n \<le> real n / real n"
    using cubes_sum_bounds(2) [OF a, of n] by (intro divide_right_mono) simp_all
  then have r1: "r \<le> 1"
    using assms(2) by (simp add: r_def)
  have rl: "1 - 75 / (d * d * real n) \<le> r"
    using steady_ratio_lower [OF assms(1,2)] by (simp add: r_def a_def)
  have res: "XPowerSwim_compute (steady_swim weight d v n)
               = Inr (Some \<lparr>setValue = pw * root 3 r, setCount = Some (real n * d)\<rparr>)"
    using steady_compute [OF assms] by (simp only: pw_def r_def a_def)
  have "pw * (1 - 75 / (d * d * real n)) \<le> pw * r"
    using pw rl by (rule mult_left_mono [rotated])
  also have "\<dots> \<le> pw * root 3 r"
    using pw root3_bounds(1) [OF r0 r1] by (rule mult_left_mono [rotated])
  finally have lower: "pw * (1 - 75 / (d * d * real n)) \<le> pw * root 3 r" .
  have "pw * root 3 r \<le> pw * 1"
    using pw root3_bounds(2) [OF r0 r1] by (rule mult_left_mono [rotated])
  then have upper: "pw * root 3 r \<le> pw" by simp
  have general: "\<exists>x. XPowerSwim_compute (steady_swim weight d v n)
                     = Inr (Some \<lparr>setValue = x, setCount = Some (real n * d)\<rparr>)
                 \<and> pw * (1 - 75 / (d * d * real n)) \<le> x \<and> x \<le> pw"
    using res lower upper by blast
  define h where "h = (\<Sum>i<3600. (1 - attenuation 1 ^ Suc i) ^ 3) / real 3600"
  have hp: "swimming_power 70 (4.32 / 3.6) = 1908 / 25"
    by (simp add: swimming_power_def pow3_def power3_eq_cube)
  have hl: "(995 / 1000) ^ 3 \<le> h"
    using hour_ratio_lower by (simp only: h_def)
  then have h0: "0 \<le> h"
    by (rule order_trans [rotated]) simp
  have "(\<Sum>i<3600. (1 - attenuation 1 ^ Suc i) ^ 3) / real 3600 \<le> real 3600 / real 3600"
    using cubes_sum_bounds(2) [OF attenuation_nonneg attenuation_less_one, of 1 3600]
    by (intro divide_right_mono) simp_all
  then have h1: "h \<le> 1" by (simp add: h_def)
  have "root 3 ((995 / 1000) ^ 3) \<le> root 3 h"
    using hl by (simp only: real_root_le_mono)
  then have hr: "995 / 1000 \<le> root 3 h"
    by (simp add: real_root_power_cancel)
  have hu: "root 3 h \<le> 1"
    by (rule root3_bounds(2) [OF h0 h1])
  have hres: "XPowerSwim_compute (steady_swim 70 1 4.32 3600)
                = Inr (Some \<lparr>setValue = 1908 / 25 * root 3 h, setCount = Some 3600\<rparr>)"
  proof -
    have "XPowerSwim_compute (steady_swim 70 1 4.32 3600)
          = Inr (Some \<lparr>setValue = swimming_power 70 (4.32 / 3.6)
                          * root 3 ((\<Sum>i<3600. (1 - attenuation 1 ^ Suc i) ^ 3) / real 3600),
                      setCount = Some (real 3600 * 1)\<rparr>)"
      by (rule steady_compute) simp_all
    then show ?thesis
      unfolding hp h_def [symmetric] by simp
  qed
  have exact: "(0.35 * 70 + 2) / 0.6 * 1.2 ^ 3 = (1908 / 25 :: real)"
    by (simp add: power3_eq_cube)
  have tol: "\<bar>1908 / 25 * y - 1908 / 25\<bar> \<le> 0.005 * (1908 / 25)
             \<and> \<bar>1908 / 25 * y - 76.3\<bar> \<le> 0.005 * 76.3"
    if "995 / 1000 \<le> y" and "y \<le> 1" for y :: real
    using that unfolding abs_le_iff by simp
  have "\<bar>1908 / 25 * root 3 h - (0.35 * 70 + 2) / 0.6 * 1.2 ^ 3\<bar>
          \<le> 0.005 * ((0.35 * 70 + 2) / 0.6 * 1.2 ^ 3)
        \<and> \<bar>1908 / 25 * root 3 h - 76.3\<bar> \<le> 0.005 * 76.3"
    using tol [OF hr hu] by (simp only: exact)
  then have hour: "\<exists>x. XPowerSwim_compute (steady_swim 70 1 4.32 3600)
                    = Inr (Some \<lparr>setValue = x, setCount = Some 3600\<rparr>)
                 \<and> \<bar>x - (0.35 * 70 + 2) / 0.6 * 1.2 ^ 3\<bar>
                     \<le> 0.005 * ((0.35 * 70 + 2) / 0.6 * 1.2 ^ 3)
                 \<and> \<bar>x - 76.3\<bar> \<le> 0.005 * 76.3"
    using hres by blast
  show ?thesis
    using running [of n] limit general hour
    unfolding pw_def a_def by blast
qed

theorem steady_speed_witness:
  "\<exists>x. XPowerSwim_compute (steady_swim 70 1 4.32 3600)
          = Inr (Some \<lparr>setValue = x, setCount = Some 3600\<rparr>)
      \<and> swimming_power 70 (4.32 / 3.6) * (1 - 75 / 3600) \<le> x
      \<and> x \<le> swimming_power 70 (4.32 / 3.6)"
  using steady_speed_approaches_drag_power [of 1 3600 70 "4.32"]
  by simp

end
